theory Spec2Isabelle
  imports Main "HOL-Library.Word"
begin

section \<open>The MAR archive codec of \<^verbatim>\<open>mar.go\<close>\<close>

text \<open>
  A shallow embedding of \<^verbatim>\<open>Unmarshal\<close>, \<^verbatim>\<open>MarshalForSignature\<close> and \<^verbatim>\<open>parse\<close>.

  Conventions of the embedding:
  \<^item> a Go \<^verbatim>\<open>[]byte\<close> is a list of 8-bit words whose capacity equals its length; a Go
    \<^verbatim>\<open>string\<close> built from raw bytes (\<^verbatim>\<open>MarID\<close>, \<^verbatim>\<open>FileName\<close>,
    \<^verbatim>\<open>ProductInformation\<close>) is the list of its bytes;
  \<^item> \<^verbatim>\<open>uint32\<close> and \<^verbatim>\<open>uint64\<close> are 32-bit and 64-bit words, so \<open>+\<close> and \<open>-\<close>
    wrap around as in Go;
  \<^item> Go's \<^verbatim>\<open>int\<close> is the 64-bit signed integer: \<^verbatim>\<open>int(x)\<close> of a \<^verbatim>\<open>uint32\<close> is
    \<open>unat x\<close>, \<^verbatim>\<open>int(x)\<close> of a \<^verbatim>\<open>uint64\<close> is \<open>sint x\<close>. The cursor of
    \<^verbatim>\<open>Unmarshal\<close> only ever holds sums of lengths read from the buffer and values below
    \<open>2 ^ 32\<close>, so it is a natural number;
  \<^item> \<^verbatim>\<open>Unmarshal\<close> writes through its \<^verbatim>\<open>*File\<close> argument: the model takes the value
    behind the pointer and returns the value behind it after the call, next to what the
    call returned;
  \<^item> a returned \<^verbatim>\<open>error\<close> and a run-time panic are different outcomes; memory is not
    bounded, so an allocation fails only where the language defines a panic;
  \<^item> the diagnostic output written to standard error is left out.
\<close>

subsection \<open>Data model\<close>

type_synonym byte = "8 word"
type_synonym uint32 = "32 word"
type_synonym uint64 = "64 word"
type_synonym gostring = "byte list"

abbreviation (input) MarIDLen :: nat where "MarIDLen \<equiv> 4"
abbreviation (input) OffsetToIndexLen :: nat where "OffsetToIndexLen \<equiv> 4"
abbreviation (input) SignaturesHeaderLen :: nat where "SignaturesHeaderLen \<equiv> 12"
abbreviation (input) SignatureEntryHeaderLen :: nat where "SignatureEntryHeaderLen \<equiv> 8"
abbreviation (input) AdditionalSectionsHeaderLen :: nat where "AdditionalSectionsHeaderLen \<equiv> 4"
abbreviation (input) AdditionalSectionsEntryHeaderLen :: nat where "AdditionalSectionsEntryHeaderLen \<equiv> 8"
abbreviation (input) IndexHeaderLen :: nat where "IndexHeaderLen \<equiv> 4"
abbreviation (input) IndexEntryHeaderLen :: nat where "IndexEntryHeaderLen \<equiv> 12"
abbreviation (input) SigAlgRsaPkcs1Sha1 :: uint32 where "SigAlgRsaPkcs1Sha1 \<equiv> 1"
abbreviation (input) SigAlgRsaPkcs1Sha384 :: uint32 where "SigAlgRsaPkcs1Sha384 \<equiv> 2"
abbreviation (input) BlockIDProductInfo :: uint32 where "BlockIDProductInfo \<equiv> 1"

record SignaturesHeader =
  FileSize :: uint64
  NumSignatures :: uint32

record Signature =
  AlgorithmID :: uint32
  sig_Size :: uint32
  Algorithm :: string
  sig_Data :: "byte list"

record AdditionalSectionsHeader =
  NumAdditionalSections :: uint32

record AdditionalSection =
  BlockSize :: uint32
  BlockID :: uint32
  as_Data :: "byte list"

record Entry =
  Data :: "byte list"
  IsCompressed :: bool

record IndexHeader =
  ih_Size :: uint32

record IndexEntry =
  OffsetToContent :: uint32
  ie_Size :: uint32
  Flags :: uint32
  FileName :: gostring

record File =
  MarID :: gostring
  OffsetToIndex :: uint32
  ProductInformation :: gostring
  SignaturesHeader :: SignaturesHeader
  Signatures :: "Signature list"
  AdditionalSectionsHeader :: AdditionalSectionsHeader
  AdditionalSections :: "AdditionalSection list"
  IndexHeader :: IndexHeader
  Index :: "IndexEntry list"
  Content :: "gostring \<rightharpoonup> Entry"

text \<open>The zero value of \<^verbatim>\<open>File\<close>, as \<^verbatim>\<open>var file File\<close> gives it.\<close>

definition zero_File :: File where
  "zero_File =
     \<lparr>MarID = [], OffsetToIndex = 0, ProductInformation = [],
      SignaturesHeader = \<lparr>FileSize = 0, NumSignatures = 0\<rparr>, Signatures = [],
      AdditionalSectionsHeader = \<lparr>NumAdditionalSections = 0\<rparr>, AdditionalSections = [],
      IndexHeader = \<lparr>ih_Size = 0\<rparr>, Index = [], Content = Map.empty\<rparr>"

subsection \<open>Outcomes\<close>

text \<open>
  The four \<^verbatim>\<open>fmt.Errorf\<close> values of \<^verbatim>\<open>Unmarshal\<close> and the one of
  \<^verbatim>\<open>MarshalForSignature\<close>, each with the data its message prints. \<open>ParsingFailed p\<close>
  is "parsing failed at position p: refusing to read more bytes than present in input",
  the only error \<^verbatim>\<open>parse\<close> gives.
\<close>

datatype error =
    TooSmall
  | ParsingFailed nat
  | MissingNullTerminator
  | DuplicateFile gostring
  | IndexSizeMismatch nat uint32

text \<open>
  A call fails by returning an error, or by a run-time panic (a slice expression out of
  range, a \<^verbatim>\<open>make\<close> whose length is not a non-negative \<^verbatim>\<open>int\<close>).
\<close>

datatype failure = Error error | Panic

subsection \<open>Big-endian integers (\<^verbatim>\<open>encoding/binary\<close>)\<close>

definition be_nat :: "byte list \<Rightarrow> nat" where
  "be_nat bs = foldl (\<lambda>acc b. acc * 256 + unat b) 0 bs"

definition Uint32 :: "byte list \<Rightarrow> uint32" where
  "Uint32 bs = of_nat (be_nat bs)"

definition Uint64 :: "byte list \<Rightarrow> uint64" where
  "Uint64 bs = of_nat (be_nat bs)"

definition PutUint32 :: "uint32 \<Rightarrow> byte list" where
  "PutUint32 v = [ucast (drop_bit 24 v), ucast (drop_bit 16 v), ucast (drop_bit 8 v), ucast v]"

definition PutUint64 :: "uint64 \<Rightarrow> byte list" where
  "PutUint64 v =
     [ucast (drop_bit 56 v), ucast (drop_bit 48 v), ucast (drop_bit 40 v), ucast (drop_bit 32 v),
      ucast (drop_bit 24 v), ucast (drop_bit 16 v), ucast (drop_bit 8 v), ucast v]"

subsection \<open>\<^verbatim>\<open>parse\<close>\<close>

text \<open>
  \<^verbatim>\<open>parse\<close> refuses a read that ends after the input; otherwise
  \<^verbatim>\<open>binary.Read\<close> decodes \<^verbatim>\<open>input[startPos : startPos+readLen]\<close> into a value
  whose encoded size is \<open>readLen\<close> at every call site, so it cannot fail. The model returns
  the bytes read and the caller decodes them.
\<close>

definition parse :: "byte list \<Rightarrow> nat \<Rightarrow> nat \<Rightarrow> byte list option" where
  "parse input startPos readLen =
     (if length input < startPos + readLen then None
      else Some (take readLen (drop startPos input)))"

subsection \<open>\<^verbatim>\<open>Unmarshal\<close>\<close>

text \<open>
  The loop over the signatures, \<^verbatim>\<open>for i = 0; i < file.SignaturesHeader.NumSignatures; i++\<close>.
  The first argument counts the iterations left; the last is \<^verbatim>\<open>file.Signatures\<close>, the only
  field the loop writes. The result is the cursor after the loop, or the error returned
  from inside it, and \<^verbatim>\<open>file.Signatures\<close> at that moment.
\<close>

definition algorithmName :: "uint32 \<Rightarrow> string" where
  "algorithmName a =
     (if a = SigAlgRsaPkcs1Sha1 then ''RSA-PKCS1-SHA1''
      else if a = SigAlgRsaPkcs1Sha384 then ''RSA-PKCS1-SHA384''
      else ''unknown'')"

fun parseSignatures ::
  "byte list \<Rightarrow> nat \<Rightarrow> nat \<Rightarrow> Signature list \<Rightarrow> (failure + nat) \<times> Signature list" where
  "parseSignatures input 0 cursor sigs = (Inr cursor, sigs)"
| "parseSignatures input (Suc n) cursor sigs =
     (case parse input cursor SignatureEntryHeaderLen of
        None \<Rightarrow> (Inl (Error (ParsingFailed cursor)), sigs)
      | Some h \<Rightarrow>
          (let cursor = cursor + SignatureEntryHeaderLen;
               sg = \<lparr>AlgorithmID = Uint32 (take 4 h), sig_Size = Uint32 (drop 4 h),
                     Algorithm = algorithmName (Uint32 (take 4 h)), sig_Data = []\<rparr>
           in case parse input cursor (unat (sig_Size sg)) of
                None \<Rightarrow> (Inl (Error (ParsingFailed cursor)), sigs)
              | Some d \<Rightarrow>
                  parseSignatures input n (cursor + unat (sig_Size sg))
                    (sigs @ [sg\<lparr>sig_Data := d\<rparr>])))"

text \<open>
  \<^verbatim>\<open>strings.Replace(strings.Trim(string(as.Data), "\x00"), "\x00", " ", -1)\<close>: the zero bytes
  at both ends are cut off, every zero byte left becomes a space.
\<close>

definition productInformation :: "byte list \<Rightarrow> gostring" where
  "productInformation d =
     map (\<lambda>b. if b = 0 then 32 else b)
       (rev (dropWhile (\<lambda>b. b = 0) (rev (dropWhile (\<lambda>b. b = 0) d))))"

text \<open>
  The loop over the additional sections. It writes \<^verbatim>\<open>file.ProductInformation\<close> and
  \<^verbatim>\<open>file.AdditionalSections\<close>, the pair of the last argument. \<^verbatim>\<open>dataSize\<close> is a
  \<^verbatim>\<open>uint32\<close> subtraction.
\<close>

fun parseAdditionalSections ::
  "byte list \<Rightarrow> nat \<Rightarrow> nat \<Rightarrow> gostring \<times> AdditionalSection list \<Rightarrow>
     (failure + nat) \<times> gostring \<times> AdditionalSection list" where
  "parseAdditionalSections input 0 cursor st = (Inr cursor, st)"
| "parseAdditionalSections input (Suc n) cursor st =
     (case parse input cursor AdditionalSectionsEntryHeaderLen of
        None \<Rightarrow> (Inl (Error (ParsingFailed cursor)), st)
      | Some h \<Rightarrow>
          (let cursor = cursor + AdditionalSectionsEntryHeaderLen;
               ash_BlockSize = Uint32 (take 4 h);
               ash_BlockID = Uint32 (drop 4 h);
               dataSize = ash_BlockSize - 8
           in case parse input cursor (unat dataSize) of
                None \<Rightarrow> (Inl (Error (ParsingFailed cursor)), st)
              | Some d \<Rightarrow>
                  parseAdditionalSections input n (cursor + unat dataSize)
                    (if ash_BlockID = BlockIDProductInfo then productInformation d else fst st,
                     snd st @ [\<lparr>BlockSize = ash_BlockSize, BlockID = ash_BlockID, as_Data = d\<rparr>])))"

text \<open>
  The loop over the index entries, \<^verbatim>\<open>for i = 0; ; i++\<close>, left by \<^verbatim>\<open>break\<close> when
  \<^verbatim>\<open>cursor >= int(file.SignaturesHeader.FileSize)\<close>. \<^verbatim>\<open>bytes.Index\<close> finds the first zero
  byte of \<^verbatim>\<open>input[cursor:]\<close>. The loop writes \<^verbatim>\<open>file.Index\<close>, its last argument; the
  result holds the cursor at the \<^verbatim>\<open>break\<close>.
\<close>

function parseIndex ::
  "byte list \<Rightarrow> uint64 \<Rightarrow> nat \<Rightarrow> IndexEntry list \<Rightarrow> (failure + nat) \<times> IndexEntry list" where
  "parseIndex input fileSize cursor idx =
     (if sint fileSize \<le> int cursor then (Inr cursor, idx)
      else case parse input cursor IndexEntryHeaderLen of
        None \<Rightarrow> (Inl (Error (ParsingFailed cursor)), idx)
      | Some h \<Rightarrow>
          (let cursor' = cursor + IndexEntryHeaderLen;
               rest = drop cursor' input
           in if 0 \<notin> set rest then (Inl (Error MissingNullTerminator), idx)
              else
                (let endNamePos = length (takeWhile (\<lambda>b. b \<noteq> 0) rest);
                     idxEntry = \<lparr>OffsetToContent = Uint32 (take 4 h),
                                 ie_Size = Uint32 (take 4 (drop 4 h)),
                                 Flags = Uint32 (drop 8 h),
                                 FileName = take endNamePos rest\<rparr>
                 in parseIndex input fileSize (cursor' + endNamePos + 1) (idx @ [idxEntry]))))"
  by pat_completeness auto
termination
  by (relation "measure (\<lambda>(input, fileSize, cursor, idx). length input - cursor)")
     (auto simp: parse_def split: if_splits)


text \<open>
  The loop over \<^verbatim>\<open>file.Index\<close> that fills \<^verbatim>\<open>file.Content\<close>. The slice expression
  \<^verbatim>\<open>input[idxEntry.OffsetToContent:idxEntry.OffsetToContent+idxEntry.Size]\<close> has
  \<^verbatim>\<open>uint32\<close> operands, so the sum wraps; it panics unless
  \<open>low \<le> high \<le> cap(input)\<close>.
\<close>

definition xzMagic :: "byte list" where
  "xzMagic = [0xFD, 0x37, 0x7A, 0x58, 0x5A, 0x00]"

fun readContent ::
  "byte list \<Rightarrow> IndexEntry list \<Rightarrow> (gostring \<rightharpoonup> Entry) \<Rightarrow>
     failure option \<times> (gostring \<rightharpoonup> Entry)" where
  "readContent input [] content = (None, content)"
| "readContent input (idxEntry # rest) content =
     (let low = OffsetToContent idxEntry;
          high = OffsetToContent idxEntry + ie_Size idxEntry
      in if low \<le> high \<and> unat high \<le> length input then
           (let d = take (unat high - unat low) (drop (unat low) input);
                entry = \<lparr>Data = d, IsCompressed = (6 < length d \<and> take 6 d = xzMagic)\<rparr>
            in if content (FileName idxEntry) \<noteq> None
               then (Some (Error (DuplicateFile (FileName idxEntry))), content)
               else readContent input rest (content(FileName idxEntry \<mapsto> entry)))
         else (Some Panic, content))"

text \<open>
  \<^verbatim>\<open>Unmarshal\<close>, cut where the source's comments cut it. Each part takes the value behind
  \<^verbatim>\<open>file\<close> as the part before left it, and gives the returned error (\<open>None\<close> for
  \<^verbatim>\<open>nil\<close>) with the value behind \<^verbatim>\<open>file\<close> at the return.
\<close>

definition Unmarshal_content :: "byte list \<Rightarrow> File \<Rightarrow> failure option \<times> File" where
  "Unmarshal_content input file =
     (case readContent input (Index file) Map.empty of
        (r, content) \<Rightarrow> (r, file\<lparr>Content := content\<rparr>))"

definition Unmarshal_index :: "byte list \<Rightarrow> File \<Rightarrow> failure option \<times> File" where
  "Unmarshal_index input file =
     (let cursor = unat (OffsetToIndex file)
      in case parse input cursor IndexHeaderLen of
           None \<Rightarrow> (Some (Error (ParsingFailed cursor)), file)
         | Some b \<Rightarrow>
             (let file = file\<lparr>IndexHeader := \<lparr>ih_Size = Uint32 b\<rparr>\<rparr>;
                  cursor = cursor + IndexHeaderLen
              in case parseIndex input (FileSize (SignaturesHeader file)) cursor (Index file) of
                   (Inl e, idx) \<Rightarrow> (Some e, file\<lparr>Index := idx\<rparr>)
                 | (Inr c, idx) \<Rightarrow> Unmarshal_content input (file\<lparr>Index := idx\<rparr>)))"

definition Unmarshal_sections :: "byte list \<Rightarrow> nat \<Rightarrow> File \<Rightarrow> failure option \<times> File" where
  "Unmarshal_sections input cursor file =
     (case parse input cursor AdditionalSectionsHeaderLen of
        None \<Rightarrow> (Some (Error (ParsingFailed cursor)), file)
      | Some b \<Rightarrow>
          (let file = file\<lparr>AdditionalSectionsHeader := \<lparr>NumAdditionalSections = Uint32 b\<rparr>\<rparr>;
               cursor = cursor + AdditionalSectionsHeaderLen
           in case parseAdditionalSections input
                     (unat (NumAdditionalSections (AdditionalSectionsHeader file))) cursor
                     (ProductInformation file, AdditionalSections file) of
                (Inl e, p, secs) \<Rightarrow>
                  (Some e, file\<lparr>ProductInformation := p, AdditionalSections := secs\<rparr>)
              | (Inr c, p, secs) \<Rightarrow>
                  Unmarshal_index input (file\<lparr>ProductInformation := p, AdditionalSections := secs\<rparr>)))"

definition Unmarshal_signatures :: "byte list \<Rightarrow> nat \<Rightarrow> File \<Rightarrow> failure option \<times> File" where
  "Unmarshal_signatures input cursor file =
     (case parseSignatures input (unat (NumSignatures (SignaturesHeader file))) cursor
             (Signatures file) of
        (Inl e, sigs) \<Rightarrow> (Some e, file\<lparr>Signatures := sigs\<rparr>)
      | (Inr c, sigs) \<Rightarrow> Unmarshal_sections input c (file\<lparr>Signatures := sigs\<rparr>))"

definition Unmarshal :: "byte list \<Rightarrow> File \<Rightarrow> failure option \<times> File" where
  "Unmarshal input file =
     (if length input <
           MarIDLen + OffsetToIndexLen + SignaturesHeaderLen + AdditionalSectionsHeaderLen
             + IndexHeaderLen
      then (Some (Error TooSmall), file)
      else case parse input 0 MarIDLen of
        None \<Rightarrow> (Some (Error (ParsingFailed 0)), file)
      | Some marid \<Rightarrow>
          (let file = file\<lparr>MarID := marid\<rparr>
           in case parse input MarIDLen OffsetToIndexLen of
                None \<Rightarrow> (Some (Error (ParsingFailed MarIDLen)), file)
              | Some b \<Rightarrow>
                  (let file = file\<lparr>OffsetToIndex := Uint32 b\<rparr>;
                       cursor = MarIDLen + OffsetToIndexLen
                   in case parse input cursor SignaturesHeaderLen of
                        None \<Rightarrow> (Some (Error (ParsingFailed cursor)), file)
                      | Some s \<Rightarrow>
                          Unmarshal_signatures input (cursor + SignaturesHeaderLen)
                            (file\<lparr>SignaturesHeader :=
                                    \<lparr>FileSize = Uint64 (take 8 s),
                                     NumSignatures = Uint32 (drop 8 s)\<rparr>\<rparr>))))"

subsection \<open>\<^verbatim>\<open>MarshalForSignature\<close>\<close>

text \<open>\<^verbatim>\<open>sigDataSize\<close> is a \<^verbatim>\<open>uint32\<close>: the sum of the signature sizes wraps.\<close>

definition sigDataSize :: "Signature list \<Rightarrow> uint32" where
  "sigDataSize sigs = foldl (\<lambda>acc sg. acc + sig_Size sg) 0 sigs"

text \<open>
  \<^verbatim>\<open>copy(output[low:high], src)\<close>: the slice expression panics unless
  \<open>low \<le> high \<le> cap(output)\<close>; \<^verbatim>\<open>copy\<close> then writes the first
  \<open>min (high - low) (len src)\<close> bytes of \<open>src\<close> at \<open>low\<close>.
\<close>

definition copy_slice :: "byte list \<Rightarrow> nat \<Rightarrow> nat \<Rightarrow> byte list \<Rightarrow> failure + byte list" where
  "copy_slice output low high src =
     (if low \<le> high \<and> high \<le> length output then
        (let n = min (high - low) (length src)
         in Inr (take low output @ take n src @ drop (low + n) output))
      else Inl Panic)"

text \<open>The first staging buffer \<^verbatim>\<open>buf\<close>: everything before the content, without the signature data.\<close>

definition marshalHeader :: "File \<Rightarrow> byte list" where
  "marshalHeader file =
     MarID file @ PutUint32 (OffsetToIndex file)
     @ PutUint64 (FileSize (SignaturesHeader file))
     @ PutUint32 (NumSignatures (SignaturesHeader file))
     @ concat (map (\<lambda>sg. PutUint32 (AlgorithmID sg) @ PutUint32 (sig_Size sg)) (Signatures file))
     @ PutUint32 (NumAdditionalSections (AdditionalSectionsHeader file))
     @ concat (map (\<lambda>as. PutUint32 (BlockSize as) @ PutUint32 (BlockID as) @ as_Data as)
         (AdditionalSections file))"

text \<open>
  The loop over \<^verbatim>\<open>file.Index\<close>: each entry is written to \<^verbatim>\<open>idxBuf\<close> and its content is
  copied into \<^verbatim>\<open>output\<close>, at offsets computed in \<^verbatim>\<open>uint32\<close>. A name that is not a key of
  \<^verbatim>\<open>file.Content\<close> reads the zero \<^verbatim>\<open>Entry\<close>.
\<close>

fun marshalIndex ::
  "(gostring \<rightharpoonup> Entry) \<Rightarrow> uint32 \<Rightarrow> IndexEntry list \<Rightarrow> byte list \<Rightarrow> byte list \<Rightarrow>
     failure + byte list \<times> byte list" where
  "marshalIndex content sds [] idxBuf output = Inr (idxBuf, output)"
| "marshalIndex content sds (idx # rest) idxBuf output =
     (let idxBuf = idxBuf @ PutUint32 (OffsetToContent idx) @ PutUint32 (ie_Size idx)
                     @ PutUint32 (Flags idx) @ FileName idx @ [0]
      in case copy_slice output (unat (OffsetToContent idx - sds))
                (unat (OffsetToContent idx + ie_Size idx - sds))
                (case content (FileName idx) of None \<Rightarrow> [] | Some e \<Rightarrow> Data e) of
           Inl e \<Rightarrow> Inl e
         | Inr output \<Rightarrow> marshalIndex content sds rest idxBuf output)"

text \<open>
  \<^verbatim>\<open>MarshalForSignature\<close> has a pointer receiver: the model returns what the call returns
  and the value behind \<^verbatim>\<open>file\<close> after it. No statement of the body assigns through
  \<^verbatim>\<open>file\<close>. \<^verbatim>\<open>make([]byte, n)\<close> panics when \<^verbatim>\<open>int(n)\<close> is negative; the
  writes to a \<^verbatim>\<open>bytes.Buffer\<close> return no error.
\<close>

definition MarshalForSignature :: "File \<Rightarrow> (failure + byte list) \<times> File" where
  "MarshalForSignature file =
     (let sds = sigDataSize (Signatures file);
          n = FileSize (SignaturesHeader file) - ucast sds
      in if sint n < 0 then Inl Panic
         else
           (let buf = marshalHeader file
            in case copy_slice (replicate (unat n) 0) 0 (length buf) buf of
                 Inl e \<Rightarrow> Inl e
               | Inr output \<Rightarrow>
                   (case marshalIndex (Content file) sds (Index file)
                           (PutUint32 (ih_Size (IndexHeader file))) output of
                      Inl e \<Rightarrow> Inl e
                    | Inr (idxBuf, output) \<Rightarrow>
                        if (of_nat (length idxBuf) :: uint32)
                             \<noteq> ih_Size (IndexHeader file) + of_nat IndexHeaderLen
                        then Inl (Error (IndexSizeMismatch (length idxBuf)
                                           (ih_Size (IndexHeader file))))
                        else copy_slice output (unat (OffsetToIndex file - sds))
                               (unat (OffsetToIndex file + of_nat (length idxBuf) - sds))
                               idxBuf)),
      file)"

subsection \<open>Example buffers\<close>

text \<open>
  A well-formed archive with no signature and no additional section: the six bytes of the
  xz magic number as the content of the one file \<^verbatim>\<open>a\<close>, at offset 24, and the index at
  offset 30.
\<close>

definition ex_xz6 :: "byte list" where
  "ex_xz6 =
     [77, 65, 82, 49, 0, 0, 0, 30, 0, 0, 0, 0, 0, 0, 0, 48,
      0, 0, 0, 0, 0, 0, 0, 0, 253, 55, 122, 88, 90, 0, 0, 0,
      0, 14, 0, 0, 0, 24, 0, 0, 0, 6, 0, 0, 0, 0, 97, 0]"

text \<open>
  A 46-byte buffer whose only index entry gives offset 24 and size 100 for the file
  \<^verbatim>\<open>a\<close>: the content would end at byte 124.
\<close>

definition ex_content_past_end :: "byte list" where
  "ex_content_past_end =
     [77, 65, 82, 49, 0, 0, 0, 28, 0, 0, 0, 0, 0, 0, 0, 46,
      0, 0, 0, 0, 0, 0, 0, 0, 97, 98, 99, 100, 0, 0, 0, 14,
      0, 0, 0, 24, 0, 0, 0, 100, 0, 0, 0, 0, 97, 0]"

text \<open>
  An 80-byte buffer with one signature of 30 bytes and one index entry that gives offset 24
  and size 6: the content offset is smaller than the size of the signature data.
\<close>

definition ex_content_in_signature :: "byte list" where
  "ex_content_in_signature =
     [77, 65, 82, 49, 0, 0, 0, 62, 0, 0, 0, 0, 0, 0, 0, 80,
      0, 0, 0, 1, 0, 0, 0, 1, 0, 0, 0, 30, 1, 2, 3, 4,
      5, 6, 7, 8, 9, 10, 11, 12, 13, 14, 15, 16, 17, 18, 19, 20,
      21, 22, 23, 24, 25, 26, 27, 28, 29, 30, 0, 0, 0, 0, 0, 0,
      0, 14, 0, 0, 0, 24, 0, 0, 0, 6, 0, 0, 0, 0, 97, 0]"

text \<open>
  A 41-byte buffer that announces two signatures: the first has 2 bytes of data, the second
  declares 5 bytes and the buffer ends after 3 of them.
\<close>

definition ex_truncated_signature :: "byte list" where
  "ex_truncated_signature =
     [77, 65, 82, 49, 0, 0, 0, 0, 0, 0, 0, 0, 0, 0, 0, 41,
      0, 0, 0, 2, 0, 0, 0, 1, 0, 0, 0, 2, 170, 187, 0, 0,
      0, 2, 0, 0, 0, 5, 1, 2, 3]"



text \<open>
  A well-formed archive of 55 bytes with one signature of 3 bytes, the file \<^verbatim>\<open>f\<close> with the
  content \<^verbatim>\<open>hi\<close> at offset 35, and the index at offset 37.
\<close>

definition ex_signed :: "byte list" where
  "ex_signed =
     [77, 65, 82, 49, 0, 0, 0, 37, 0, 0, 0, 0, 0, 0, 0, 55,
      0, 0, 0, 1, 0, 0, 0, 2, 0, 0, 0, 3, 9, 8, 7, 0,
      0, 0, 0, 104, 105, 0, 0, 0, 14, 0, 0, 0, 35, 0, 0, 0,
      2, 0, 0, 1, 164, 102, 0]"




text \<open>
  Two 62-byte buffers whose index names the file \<^verbatim>\<open>a\<close> twice. In the first the second
  entry gives offset 27 and size 100, past the end of the buffer; in the second it gives
  offset 27 and size 3.
\<close>

definition ex_duplicate_past_end :: "byte list" where
  "ex_duplicate_past_end =
     [77, 65, 82, 49, 0, 0, 0, 30, 0, 0, 0, 0, 0, 0, 0, 62,
      0, 0, 0, 0, 0, 0, 0, 0, 97, 98, 99, 100, 101, 102, 0, 0,
      0, 28, 0, 0, 0, 24, 0, 0, 0, 3, 0, 0, 0, 0, 97, 0,
      0, 0, 0, 27, 0, 0, 0, 100, 0, 0, 0, 0, 97, 0]"

definition ex_duplicate :: "byte list" where
  "ex_duplicate =
     [77, 65, 82, 49, 0, 0, 0, 30, 0, 0, 0, 0, 0, 0, 0, 62,
      0, 0, 0, 0, 0, 0, 0, 0, 97, 98, 99, 100, 101, 102, 0, 0,
      0, 28, 0, 0, 0, 24, 0, 0, 0, 3, 0, 0, 0, 0, 97, 0,
      0, 0, 0, 27, 0, 0, 0, 3, 0, 0, 0, 0, 97, 0]"

section \<open>Properties\<close>

subsection \<open>Evaluation of the model on a concrete buffer\<close>

declare parseIndex.simps [simp del]

lemma parseSignatures_numeral:
  "parseSignatures input (numeral k) c s = parseSignatures input (Suc (pred_numeral k)) c s"
  by (simp add: numeral_eq_Suc)

lemma parseAdditionalSections_numeral:
  "parseAdditionalSections input (numeral k) c s
     = parseAdditionalSections input (Suc (pred_numeral k)) c s"
  by (simp add: numeral_eq_Suc)

lemmas eval_simps =
  parseSignatures_numeral parseAdditionalSections_numeral
  Unmarshal_def Unmarshal_signatures_def Unmarshal_sections_def Unmarshal_index_def
  Unmarshal_content_def parse_def Uint32_def Uint64_def be_nat_def algorithmName_def
  productInformation_def xzMagic_def zero_File_def Let_def parseIndex.simps
  MarshalForSignature_def marshalHeader_def copy_slice_def sigDataSize_def
  PutUint32_def PutUint64_def

subsection \<open>Fields that the later parts of \<^verbatim>\<open>Unmarshal\<close> leave alone\<close>

lemma frame_content:
  "MarID (snd (Unmarshal_content input f)) = MarID f"
  "OffsetToIndex (snd (Unmarshal_content input f)) = OffsetToIndex f"
  "SignaturesHeader (snd (Unmarshal_content input f)) = SignaturesHeader f"
  "Index (snd (Unmarshal_content input f)) = Index f"
  by (simp_all add: Unmarshal_content_def split: prod.splits)

lemma frame_index:
  "MarID (snd (Unmarshal_index input f)) = MarID f"
  "OffsetToIndex (snd (Unmarshal_index input f)) = OffsetToIndex f"
  "SignaturesHeader (snd (Unmarshal_index input f)) = SignaturesHeader f"
  by (simp_all add: Unmarshal_index_def Let_def frame_content
        split: prod.splits option.splits sum.splits)

lemma frame_sections:
  "MarID (snd (Unmarshal_sections input c f)) = MarID f"
  "OffsetToIndex (snd (Unmarshal_sections input c f)) = OffsetToIndex f"
  "SignaturesHeader (snd (Unmarshal_sections input c f)) = SignaturesHeader f"
  by (simp_all add: Unmarshal_sections_def Let_def frame_index
        split: prod.splits option.splits sum.splits)

lemma frame_signatures:
  "MarID (snd (Unmarshal_signatures input c f)) = MarID f"
  "OffsetToIndex (snd (Unmarshal_signatures input c f)) = OffsetToIndex f"
  "SignaturesHeader (snd (Unmarshal_signatures input c f)) = SignaturesHeader f"
  by (simp_all add: Unmarshal_signatures_def Let_def frame_sections
        split: prod.splits option.splits sum.splits)

subsection \<open>The loop over the signatures\<close>

lemma parseSignatures_add:
  "parseSignatures input (k + m) c sigs =
     (case parseSignatures input k c sigs of
        (Inl e, s) \<Rightarrow> (Inl e, s)
      | (Inr c', s) \<Rightarrow> parseSignatures input m c' s)"
  by (induction k arbitrary: c sigs) (simp_all add: Let_def split: option.splits)

lemma parse_length: "parse input c n = Some d \<Longrightarrow> length d = n"
  by (auto simp: parse_def split: if_splits)

lemma parseSignatures_complete:
  "parseSignatures input n c sigs = (r, sigs') \<Longrightarrow>
     \<exists>new. sigs' = sigs @ new
       \<and> list_all (\<lambda>s. length (sig_Data s) = unat (sig_Size s)) new"
proof (induction n arbitrary: c sigs)
  case 0
  then show ?case by simp
next
  case (Suc n)
  show ?case
  proof (cases "parse input c 8")
    case None
    with Suc.prems show ?thesis by simp
  next
    case (Some h)
    show ?thesis
    proof (cases "parse input (c + 8) (unat (Uint32 (drop 4 h)))")
      case None
      with Some Suc.prems show ?thesis by (simp add: Let_def)
    next
      case d: (Some d)
      let ?sg = "\<lparr>AlgorithmID = Uint32 (take 4 h), sig_Size = Uint32 (drop 4 h),
                   Algorithm = algorithmName (Uint32 (take 4 h)), sig_Data = d\<rparr>"
      from Some d Suc.prems
      have "parseSignatures input n (c + 8 + unat (Uint32 (drop 4 h))) (sigs @ [?sg])
              = (r, sigs')"
        by (simp add: Let_def)
      from Suc.IH [OF this] obtain new where
        new: "sigs' = (sigs @ [?sg]) @ new"
             "list_all (\<lambda>s. length (sig_Data s) = unat (sig_Size s)) new"
        by blast
      from new parse_length [OF d] have
        "sigs' = sigs @ (?sg # new)
         \<and> list_all (\<lambda>s. length (sig_Data s) = unat (sig_Size s)) (?sg # new)"
        by simp
      then show ?thesis by blast
    qed
  qed
qed

subsection \<open>The loop over the additional sections\<close>



subsection \<open>The length of the encoder's output\<close>









subsection \<open>The loop over the index entries\<close>






subsection \<open>The loop that fills the content mapping\<close>

text \<open>
  An index that names a file twice never decodes: the loop ends in an error or a panic.
  When every content range lies in the buffer, it ends in the error for a duplicate name.
\<close>

lemma readContent_duplicate_fails:
  "\<not> distinct (map FileName idx) \<or> (\<exists>e \<in> set idx. content (FileName e) \<noteq> None)
     \<Longrightarrow> fst (readContent input idx content) \<noteq> None"
proof (induction idx arbitrary: content)
  case Nil
  then show ?case by simp
next
  case (Cons e idx)
  show ?case
  proof (cases "OffsetToContent e \<le> OffsetToContent e + ie_Size e
                \<and> unat (OffsetToContent e + ie_Size e) \<le> length input")
    case False
    then show ?thesis by (auto simp: Let_def)
  next
    case inrange: True
    show ?thesis
    proof (cases "content (FileName e)")
      case (Some a)
      with inrange show ?thesis by (simp add: Let_def)
    next
      case None
      let ?d = "take (unat (OffsetToContent e + ie_Size e) - unat (OffsetToContent e))
                  (drop (unat (OffsetToContent e)) input)"
      let ?c = "content(FileName e \<mapsto> \<lparr>Data = ?d,
                  IsCompressed = (6 < length ?d \<and> take 6 ?d = xzMagic)\<rparr>)"
      from Cons.prems None
      have "\<not> distinct (map FileName idx) \<or> (\<exists>e' \<in> set idx. ?c (FileName e') \<noteq> None)"
        by auto
      from Cons.IH [OF this] have ih: "fst (readContent input idx ?c) \<noteq> None" .
      from None inrange
      have step: "readContent input (e # idx) content = readContent input idx ?c"
        by (simp add: Let_def)
      show ?thesis unfolding step by (rule ih)
    qed
  qed
qed

lemma readContent_duplicate_error:
  assumes "list_all (\<lambda>e. OffsetToContent e \<le> OffsetToContent e + ie_Size e
                        \<and> unat (OffsetToContent e + ie_Size e) \<le> length input) idx"
    and "\<not> distinct (map FileName idx) \<or> (\<exists>e \<in> set idx. content (FileName e) \<noteq> None)"
  shows "\<exists>name. fst (readContent input idx content) = Some (Error (DuplicateFile name))"
  using assms
proof (induction idx arbitrary: content)
  case Nil
  then show ?case by simp
next
  case (Cons e idx)
  from Cons.prems(1) have inrange: "OffsetToContent e \<le> OffsetToContent e + ie_Size e
                \<and> unat (OffsetToContent e + ie_Size e) \<le> length input"
    and rest: "list_all (\<lambda>e. OffsetToContent e \<le> OffsetToContent e + ie_Size e
                        \<and> unat (OffsetToContent e + ie_Size e) \<le> length input) idx"
    by simp_all
  show ?case
  proof (cases "content (FileName e)")
    case (Some a)
    with inrange show ?thesis by (simp add: Let_def)
  next
    case None
    let ?d = "take (unat (OffsetToContent e + ie_Size e) - unat (OffsetToContent e))
                (drop (unat (OffsetToContent e)) input)"
    let ?c = "content(FileName e \<mapsto> \<lparr>Data = ?d,
                IsCompressed = (6 < length ?d \<and> take 6 ?d = xzMagic)\<rparr>)"
    from Cons.prems(2) None
    have "\<not> distinct (map FileName idx) \<or> (\<exists>e' \<in> set idx. ?c (FileName e') \<noteq> None)"
      by auto
    from Cons.IH [OF rest this]
    have ih: "\<exists>name. fst (readContent input idx ?c) = Some (Error (DuplicateFile name))" .
    from None inrange
    have step: "readContent input (e # idx) content = readContent input idx ?c"
      by (simp add: Let_def)
    show ?thesis unfolding step by (rule ih)
  qed
qed

lemma decoded_names_distinct:
  assumes "fst (Unmarshal input file) = None"
  shows "distinct (map FileName (Index (snd (Unmarshal input file))))"
proof -
  from assms have len: "\<not> length input < 28"
    by (auto simp: Unmarshal_def)
  have content: "\<And>f. fst (Unmarshal_content input f) = None \<Longrightarrow> distinct (map FileName (Index f))"
  proof (rule ccontr)
    fix f
    assume ok: "fst (Unmarshal_content input f) = None"
      and dup: "\<not> distinct (map FileName (Index f))"
    from dup have "fst (readContent input (Index f) Map.empty) \<noteq> None"
      by (intro readContent_duplicate_fails) simp
    with ok show False
      by (simp add: Unmarshal_content_def split: prod.splits)
  qed
  have index: "\<And>f. fst (Unmarshal_index input f) = None
                 \<Longrightarrow> distinct (map FileName (Index (snd (Unmarshal_index input f))))"
    by (auto simp: Unmarshal_index_def Let_def frame_content
          split: option.splits prod.splits sum.splits dest!: content)
  have sections: "\<And>c f. fst (Unmarshal_sections input c f) = None
                 \<Longrightarrow> distinct (map FileName (Index (snd (Unmarshal_sections input c f))))"
    by (auto simp: Unmarshal_sections_def Let_def
          split: option.splits prod.splits sum.splits dest!: index)
  have signatures: "\<And>c f. fst (Unmarshal_signatures input c f) = None
                 \<Longrightarrow> distinct (map FileName (Index (snd (Unmarshal_signatures input c f))))"
    by (auto simp: Unmarshal_signatures_def Let_def
          split: option.splits prod.splits sum.splits dest!: sections)
  from len assms signatures show ?thesis
    by (simp add: Unmarshal_def parse_def Let_def)
qed

text \<open>
  The flag of every entry of a decoded archive: more than six bytes of data, the first six
  of them the xz magic number.
\<close>

lemma readContent_flag:
  "readContent input idx content = (r, content') \<Longrightarrow> content' name = Some e
     \<Longrightarrow> content name = Some e
         \<or> (IsCompressed e \<longleftrightarrow> 6 < length (Data e) \<and> take 6 (Data e) = xzMagic)"
proof (induction idx arbitrary: content)
  case Nil
  then show ?case by simp
next
  case (Cons x idx)
  show ?case
  proof (cases "OffsetToContent x \<le> OffsetToContent x + ie_Size x
                \<and> unat (OffsetToContent x + ie_Size x) \<le> length input")
    case False
    with Cons.prems show ?thesis by (auto simp: Let_def)
  next
    case inrange: True
    show ?thesis
    proof (cases "content (FileName x)")
      case (Some a)
      with inrange Cons.prems show ?thesis by (auto simp: Let_def)
    next
      case None
      let ?d = "take (unat (OffsetToContent x + ie_Size x) - unat (OffsetToContent x))
                  (drop (unat (OffsetToContent x)) input)"
      let ?entry = "\<lparr>Data = ?d, IsCompressed = (6 < length ?d \<and> take 6 ?d = xzMagic)\<rparr>"
      from None inrange
      have step: "readContent input (x # idx) content
                    = readContent input idx (content(FileName x \<mapsto> ?entry))"
        by (simp add: Let_def)
      from Cons.IH [OF Cons.prems(1) [unfolded step] Cons.prems(2)]
      have "(content(FileName x \<mapsto> ?entry)) name = Some e
            \<or> (IsCompressed e \<longleftrightarrow> 6 < length (Data e) \<and> take 6 (Data e) = xzMagic)" .
      then show ?thesis
        by (cases "name = FileName x") auto
    qed
  qed
qed

lemma decoded_flag:
  assumes "fst (Unmarshal input file) = None"
    and "Content (snd (Unmarshal input file)) name = Some e"
  shows "IsCompressed e \<longleftrightarrow> 6 < length (Data e) \<and> take 6 (Data e) = xzMagic"
proof -
  let ?P = "\<lambda>r. fst r = None \<longrightarrow> Content (snd r) name = Some e
                \<longrightarrow> (IsCompressed e \<longleftrightarrow> 6 < length (Data e) \<and> take 6 (Data e) = xzMagic)"
  have content: "?P (Unmarshal_content input f)" for f
  proof (cases "readContent input (Index f) Map.empty")
    case (Pair r m)
    from readContent_flag [OF Pair, of name e] Pair show ?thesis
      by (simp add: Unmarshal_content_def)
  qed
  have index: "?P (Unmarshal_index input f)" for f
    using content
    by (simp add: Unmarshal_index_def Let_def split: option.splits prod.splits sum.splits)
  have sections: "?P (Unmarshal_sections input c f)" for c f
    using index
    by (simp add: Unmarshal_sections_def Let_def split: option.splits prod.splits sum.splits)
  have signatures: "?P (Unmarshal_signatures input c f)" for c f
    using sections
    by (simp add: Unmarshal_signatures_def Let_def split: option.splits prod.splits sum.splits)
  from assms have "\<not> length input < 28"
    by (auto simp: Unmarshal_def)
  with assms signatures show ?thesis
    by (simp add: Unmarshal_def parse_def Let_def)
qed

subsection \<open>Buffers that differ in their first four bytes only\<close>

text \<open>
  After the magic id every read of \<^verbatim>\<open>Unmarshal\<close> through \<^verbatim>\<open>parse\<close> or
  \<^verbatim>\<open>bytes.Index\<close> starts at position 4 or later, except the read of the index header,
  whose value decides nothing; the content loop's outcome depends on the length of the
  buffer and on the index only.
\<close>

lemma parse_agree:
  assumes "length a = length b" "drop 4 a = drop 4 b" "4 \<le> c"
  shows "parse a c n = parse b c n"
proof -
  from assms(3) have "\<And>xs :: byte list. drop c xs = drop (c - 4) (drop 4 xs)"
    by simp
  then have "drop c a = drop c b"
    using assms(2) by metis
  with assms(1) show ?thesis by (simp add: parse_def)
qed

lemma drop_agree:
  assumes "drop 4 a = drop 4 b" "4 \<le> c"
  shows "drop c (a :: byte list) = drop c b"
proof -
  from assms(2) have "\<And>xs :: byte list. drop c xs = drop (c - 4) (drop 4 xs)"
    by simp
  then show ?thesis using assms(1) by metis
qed

lemma parseSignatures_agree:
  assumes "length a = length b" "drop 4 a = drop 4 b"
  shows "4 \<le> c \<Longrightarrow> parseSignatures a n c s = parseSignatures b n c s"
proof (induction n arbitrary: c s)
  case 0
  then show ?case by simp
next
  case (Suc n)
  from Suc.prems have h: "parse a c 8 = parse b c 8"
    and d: "\<And>k. parse a (c + 8) k = parse b (c + 8) k"
    by (simp_all add: parse_agree [OF assms])
  from Suc.prems have "\<And>k s'. parseSignatures a n (c + 8 + k) s' = parseSignatures b n (c + 8 + k) s'"
    by (intro Suc.IH) simp
  with h d show ?case
    by (simp add: Let_def split: option.splits)
qed

lemma parseAdditionalSections_agree:
  assumes "length a = length b" "drop 4 a = drop 4 b"
  shows "4 \<le> c \<Longrightarrow> parseAdditionalSections a n c st = parseAdditionalSections b n c st"
proof (induction n arbitrary: c st)
  case 0
  then show ?case by simp
next
  case (Suc n)
  from Suc.prems have h: "parse a c 8 = parse b c 8"
    and d: "\<And>k. parse a (c + 8) k = parse b (c + 8) k"
    by (simp_all add: parse_agree [OF assms])
  from Suc.prems have "\<And>k st'. parseAdditionalSections a n (c + 8 + k) st'
                          = parseAdditionalSections b n (c + 8 + k) st'"
    by (intro Suc.IH) simp
  with h d show ?case
    by (simp add: Let_def split: option.splits)
qed

lemma parseIndex_agree:
  "length a = length b \<Longrightarrow> drop 4 a = drop 4 b \<Longrightarrow> 4 \<le> c
     \<Longrightarrow> parseIndex a fs c idx = parseIndex b fs c idx"
proof (induction a fs c idx rule: parseIndex.induct)
  case (1 input fileSize cursor idx)
  note len = "1.prems"(1) and tail = "1.prems"(2) and c4 = "1.prems"(3)
  from c4 have h: "parse input cursor 12 = parse b cursor 12"
    by (simp add: parse_agree [OF len tail])
  from c4 have d: "drop (cursor + 12) input = drop (cursor + 12) b"
    by (simp add: drop_agree [OF tail])
  show ?case
  proof (cases "sint fileSize \<le> int cursor")
    case True
    then show ?thesis by (simp add: parseIndex.simps)
  next
    case below: False
    show ?thesis
    proof (cases "parse input cursor 12")
      case None
      with below h show ?thesis
        by (simp add: parseIndex.simps [of _ fileSize cursor])
    next
      case (Some hd)
      show ?thesis
      proof (cases "0 \<in> set (drop (cursor + 12) input)")
        case False
        with Some below h d show ?thesis
          by (simp add: parseIndex.simps [of _ fileSize cursor] Let_def)
      next
        case True
        then have nn: "\<not> 0 \<notin> set (drop (cursor + 12) input)" by simp
        have "4 \<le> cursor + 12 + length (takeWhile (\<lambda>b. b \<noteq> 0) (drop (cursor + 12) input)) + 1"
          by simp
        note IH = "1.IH" [OF below Some refl refl nn refl refl len tail this]
        from True Some below h d IH show ?thesis
          by (simp add: parseIndex.simps [of _ fileSize cursor] Let_def)
      qed
    qed
  qed
qed

lemma readContent_agree:
  "length a = length b \<Longrightarrow> dom c1 = dom c2
     \<Longrightarrow> fst (readContent a idx c1) = fst (readContent b idx c2)"
proof (induction idx arbitrary: c1 c2)
  case Nil
  then show ?case by simp
next
  case (Cons e idx)
  from Cons.prems(2) have same: "c1 (FileName e) = None \<longleftrightarrow> c2 (FileName e) = None"
    by (metis domIff)
  have "fst (readContent a idx (c1(FileName e \<mapsto> x)))
          = fst (readContent b idx (c2(FileName e \<mapsto> y)))" for x y
  proof -
    from Cons.prems(2) have "dom (c1(FileName e \<mapsto> x)) = dom (c2(FileName e \<mapsto> y))"
      by simp
    from Cons.IH [OF Cons.prems(1) this] show ?thesis .
  qed
  with same Cons.prems(1) show ?case
    by (simp add: Let_def)
qed

lemma content_stage_agree:
  assumes "length a = length b" "Index f = Index f'"
  shows "fst (Unmarshal_content a f) = fst (Unmarshal_content b f')"
proof -
  obtain r1 m1 where 1: "readContent a (Index f) Map.empty = (r1, m1)"
    by (cases "readContent a (Index f) Map.empty")
  obtain r2 m2 where 2: "readContent b (Index f) Map.empty = (r2, m2)"
    by (cases "readContent b (Index f) Map.empty")
  from readContent_agree [OF assms(1), of Map.empty Map.empty "Index f"] 1 2
  have "r1 = r2" by simp
  with 1 2 assms(2) show ?thesis
    by (simp add: Unmarshal_content_def)
qed

lemma index_stage_agree:
  assumes "length a = length b" "drop 4 a = drop 4 b"
    and "OffsetToIndex f = OffsetToIndex f'"
    and "FileSize (SignaturesHeader f) = FileSize (SignaturesHeader f')"
    and "Index f = Index f'"
  shows "fst (Unmarshal_index a f) = fst (Unmarshal_index b f')"
proof -
  let ?c = "unat (OffsetToIndex f)"
  have p: "parse a ?c 4 = None \<longleftrightarrow> parse b ?c 4 = None"
    using assms(1) by (simp add: parse_def)
  have i: "parseIndex a (FileSize (SignaturesHeader f')) (?c + 4) (Index f')
             = parseIndex b (FileSize (SignaturesHeader f')) (?c + 4) (Index f')"
    by (rule parseIndex_agree [OF assms(1,2)]) simp
  have c: "\<And>g g'. Index g = Index g' \<Longrightarrow> fst (Unmarshal_content a g) = fst (Unmarshal_content b g')"
    by (rule content_stage_agree [OF assms(1)])
  show ?thesis
  proof (cases "parse a ?c 4")
    case None
    with p assms(3) show ?thesis
      by (simp add: Unmarshal_index_def Let_def)
  next
    case (Some x)
    with p obtain y where y: "parse b ?c 4 = Some y" by auto
    show ?thesis
    proof (cases "parseIndex b (FileSize (SignaturesHeader f')) (?c + 4) (Index f')")
      case (Pair r idx)
      with Some y i assms(3,4,5) show ?thesis
        by (cases r) (simp_all add: Unmarshal_index_def Let_def c)
    qed
  qed
qed

lemma sections_stage_agree:
  assumes "length a = length b" "drop 4 a = drop 4 b" "4 \<le> c"
  shows "fst (Unmarshal_sections a c f) = fst (Unmarshal_sections b c (f\<lparr>MarID := m\<rparr>))"
proof (cases "parse b c 4")
  case None
  with parse_agree [OF assms, of 4] show ?thesis
    by (simp add: Unmarshal_sections_def)
next
  case (Some x)
  let ?n = "unat (Uint32 x)"
  from assms(3) have c4: "4 \<le> c + 4" by simp
  note loop = parseAdditionalSections_agree [OF assms(1,2) c4,
      of ?n "(ProductInformation f, AdditionalSections f)"]
  show ?thesis
  proof (cases "parseAdditionalSections b ?n (c + 4) (ProductInformation f, AdditionalSections f)")
    case (fields r p secs)
    show ?thesis
    proof (cases r)
      case (Inl e)
      with fields loop Some parse_agree [OF assms, of 4] show ?thesis
        by (simp add: Unmarshal_sections_def Let_def)
    next
      case (Inr c')
      have "fst (Unmarshal_index a
                  (f\<lparr>AdditionalSectionsHeader := \<lparr>NumAdditionalSections = Uint32 x\<rparr>,
                      ProductInformation := p, AdditionalSections := secs\<rparr>))
            = fst (Unmarshal_index b
                  (f\<lparr>MarID := m,
                      AdditionalSectionsHeader := \<lparr>NumAdditionalSections = Uint32 x\<rparr>,
                      ProductInformation := p, AdditionalSections := secs\<rparr>))"
        by (rule index_stage_agree [OF assms(1,2)]) simp_all
      with Inr fields loop Some parse_agree [OF assms, of 4] show ?thesis
        by (simp add: Unmarshal_sections_def Let_def)
    qed
  qed
qed

lemma parseSignatures_cursor:
  "parseSignatures input n c s = (Inr c', s') \<Longrightarrow> c \<le> c'"
proof (induction n arbitrary: c s)
  case 0
  then show ?case by simp
next
  case (Suc n)
  then show ?case
    by (fastforce simp: Let_def split: option.splits)
qed

lemma signatures_stage_agree:
  assumes "length a = length b" "drop 4 a = drop 4 b" "4 \<le> c"
  shows "fst (Unmarshal_signatures a c f) = fst (Unmarshal_signatures b c (f\<lparr>MarID := m\<rparr>))"
proof -
  let ?n = "unat (NumSignatures (SignaturesHeader f))"
  note loop = parseSignatures_agree [OF assms, of ?n "Signatures f"]
  show ?thesis
  proof (cases "parseSignatures b ?n c (Signatures f)")
    case (Pair r sigs)
    show ?thesis
    proof (cases r)
      case (Inl e)
      with Pair loop show ?thesis
        by (simp add: Unmarshal_signatures_def)
    next
      case (Inr c')
      from Pair Inr have "c \<le> c'"
        by (auto dest: parseSignatures_cursor)
      with assms(3) have c4: "4 \<le> c'" by simp
      have swap: "f\<lparr>MarID := m, Signatures := sigs\<rparr> = f\<lparr>Signatures := sigs, MarID := m\<rparr>"
        by (cases f) simp
      from sections_stage_agree [OF assms(1,2) c4, of "f\<lparr>Signatures := sigs\<rparr>" m]
        Inr Pair loop show ?thesis
        by (simp add: Unmarshal_signatures_def swap)
    qed
  qed
qed

subsection \<open>Reads and copies outside the buffer\<close>

text \<open>
  Claim C1. Decode should return an error whenever a read falls outside the buffer, in
  particular when an index entry's content offset plus size exceeds the buffer length, and
  the signable-bytes encoder should return an error whenever its offset arithmetic leaves
  the output; neither should panic. The code checks the bounds in \<^verbatim>\<open>parse\<close> only: on
  the buffer \<open>ex_content_past_end\<close> the slice expression that extracts the content
  panics, and the archive decoded from \<open>ex_content_in_signature\<close> makes the encoder's
  \<^verbatim>\<open>copy\<close> panic, since 24 - 30 wraps around in \<^verbatim>\<open>uint32\<close>.
\<close>

theorem out_of_range_content_panics:
  "fst (Unmarshal ex_content_past_end zero_File) = Some Panic
   \<and> fst (Unmarshal ex_content_in_signature zero_File) = None
   \<and> fst (MarshalForSignature (snd (Unmarshal ex_content_in_signature zero_File))) = Inl Panic"
  by (simp add: eval_simps ex_content_past_end_def ex_content_in_signature_def)

subsection \<open>The compressed flag\<close>

text \<open>
  Claim C2. An entry should be flagged compressed exactly when its first six bytes are the
  xz magic number, in particular when its data is exactly those six bytes. The code tests
  \<^verbatim>\<open>len(entry.Data) > 6\<close>: the file of \<open>ex_xz6\<close>, whose data is the six magic bytes, is
  decoded with \<^verbatim>\<open>IsCompressed\<close> false.
\<close>

theorem xz_magic_alone_not_flagged:
  "fst (Unmarshal ex_xz6 zero_File) = None
   \<and> Content (snd (Unmarshal ex_xz6 zero_File)) [97]
       = Some \<lparr>Data = [0xFD, 0x37, 0x7A, 0x58, 0x5A, 0x00], IsCompressed = False\<rparr>"
  by (simp add: eval_simps ex_xz6_def)

subsection \<open>The encoder is a function of the archive\<close>


subsection \<open>What a failed decode leaves in the archive value\<close>

text \<open>
  Claim C4 says that a decode that returns an error leaves the caller's archive value
  without any field of the partially parsed input. \<^verbatim>\<open>Unmarshal\<close> writes each field through
  \<^verbatim>\<open>file\<close> as soon as it is read: on \<open>ex_truncated_signature\<close> it returns the error of
  the second signature's data, and the magic id and the first signature are in the value
  that was empty before.
\<close>

theorem failed_decode_counterexample:
  "fst (Unmarshal ex_truncated_signature zero_File) = Some (Error (ParsingFailed 38))
   \<and> MarID (snd (Unmarshal ex_truncated_signature zero_File)) = [77, 65, 82, 49]
   \<and> MarID zero_File = []
   \<and> length (Signatures (snd (Unmarshal ex_truncated_signature zero_File))) = 1
   \<and> Signatures zero_File = []"
  by (simp add: eval_simps ex_truncated_signature_def)

text \<open>
  Claim C4 as amended: when decode fails, the archive value is unchanged if the buffer is
  shorter than the 28 bytes of the fixed headers, and the error is then the one for a
  buffer that is too small; on every other failure the magic id, the offset to the index
  and the signatures header of the value are those read from the buffer.
\<close>

theorem failed_decode_keeps_fields_read:
  assumes "fst (Unmarshal input file) = Some e"
  shows "if length input < 28
         then e = Error TooSmall \<and> snd (Unmarshal input file) = file
         else MarID (snd (Unmarshal input file)) = take 4 input
            \<and> OffsetToIndex (snd (Unmarshal input file)) = Uint32 (take 4 (drop 4 input))
            \<and> SignaturesHeader (snd (Unmarshal input file))
                = \<lparr>FileSize = Uint64 (take 8 (drop 8 input)),
                   NumSignatures = Uint32 (take 4 (drop 16 input))\<rparr>"
proof (cases "length input < 28")
  case True
  with assms show ?thesis by (simp add: Unmarshal_def)
next
  case False
  then show ?thesis
    by (simp add: Unmarshal_def parse_def Let_def frame_signatures drop_take add.commute)
qed

theorem failed_decode_keeps_fields_read_witness:
  "fst (Unmarshal ex_truncated_signature zero_File) = Some (Error (ParsingFailed 38))
   \<and> MarID (snd (Unmarshal ex_truncated_signature zero_File)) = take 4 ex_truncated_signature"
proof -
  have h: "fst (Unmarshal ex_truncated_signature zero_File) = Some (Error (ParsingFailed 38))"
    by (simp add: eval_simps ex_truncated_signature_def)
  have l: "\<not> length ex_truncated_signature < 28"
    by (simp add: ex_truncated_signature_def)
  from failed_decode_keeps_fields_read [OF h] l h show ?thesis by simp
qed

subsection \<open>A signature cut short\<close>

text \<open>
  Claim C8. Let the header announce more than \<open>k\<close> signatures, let the first \<open>k\<close> be read
  completely, ending at cursor \<open>c\<close>, and let the next entry's header declare more data
  bytes than remain after it. Then decode returns the error of \<^verbatim>\<open>parse\<close> at the position
  of that data (the code's one error for a short read, "parsing failed at position
  \<open>c + 8\<close>"); it does not panic, and every signature it has stored carries as many data
  bytes as its size field declares.
\<close>

theorem truncated_signature_fails:
  assumes len: "28 \<le> length input"
    and k: "k < unat (Uint32 (take 4 (drop 16 input)))"
    and before: "parseSignatures input k 20 (Signatures file) = (Inr c, sigs)"
    and header: "parse input c 8 = Some h"
    and short: "length input < c + 8 + unat (Uint32 (drop 4 h))"
  shows "fst (Unmarshal input file) = Some (Error (ParsingFailed (c + 8)))
         \<and> Signatures (snd (Unmarshal input file)) = sigs
         \<and> list_all (\<lambda>s. length (sig_Data s) = unat (sig_Size s))
              (drop (length (Signatures file)) sigs)"
proof -
  from less_imp_Suc_add [OF k]
  obtain m where n: "unat (Uint32 (take 4 (drop 16 input))) = k + Suc m"
    by auto
  from short have nodata: "parse input (c + 8) (unat (Uint32 (drop 4 h))) = None"
    by (simp add: parse_def)
  have loop: "parseSignatures input (k + Suc m) 20 (Signatures file)
                = (Inl (Error (ParsingFailed (c + 8))), sigs)"
    by (subst parseSignatures_add) (simp add: before header nodata Let_def)
  from len have "Unmarshal input file =
      Unmarshal_signatures input 20
        (file\<lparr>MarID := take 4 input, OffsetToIndex := Uint32 (take 4 (drop 4 input)),
              SignaturesHeader := \<lparr>FileSize = Uint64 (take 8 (drop 8 input)),
                                    NumSignatures = Uint32 (take 4 (drop 16 input))\<rparr>\<rparr>)"
    by (simp add: Unmarshal_def parse_def Let_def drop_take add.commute)
  with n loop have res: "Unmarshal input file =
      (Some (Error (ParsingFailed (c + 8))),
       file\<lparr>MarID := take 4 input, OffsetToIndex := Uint32 (take 4 (drop 4 input)),
             SignaturesHeader := \<lparr>FileSize = Uint64 (take 8 (drop 8 input)),
                                   NumSignatures = Uint32 (take 4 (drop 16 input))\<rparr>,
             Signatures := sigs\<rparr>)"
    by (simp add: Unmarshal_signatures_def)
  from parseSignatures_complete [OF before] obtain new where
    "sigs = Signatures file @ new"
    "list_all (\<lambda>s. length (sig_Data s) = unat (sig_Size s)) new"
    by blast
  with res show ?thesis by simp
qed

theorem truncated_signature_fails_witness:
  "fst (Unmarshal ex_truncated_signature zero_File) = Some (Error (ParsingFailed 38))
   \<and> Signatures (snd (Unmarshal ex_truncated_signature zero_File))
       = [\<lparr>AlgorithmID = 1, sig_Size = 2, Algorithm = ''RSA-PKCS1-SHA1'',
           sig_Data = [170, 187]\<rparr>]"
proof -
  have a: "28 \<le> length ex_truncated_signature"
    by (simp add: ex_truncated_signature_def)
  have b: "1 < unat (Uint32 (take 4 (drop 16 ex_truncated_signature)))"
    by (simp add: eval_simps ex_truncated_signature_def)
  have c: "parseSignatures ex_truncated_signature 1 20 (Signatures zero_File)
             = (Inr 30, [\<lparr>AlgorithmID = 1, sig_Size = 2, Algorithm = ''RSA-PKCS1-SHA1'',
                           sig_Data = [170, 187]\<rparr>])"
    by (simp add: eval_simps ex_truncated_signature_def)
  have d: "parse ex_truncated_signature 30 8 = Some [0, 0, 0, 2, 0, 0, 0, 5]"
    by (simp add: eval_simps ex_truncated_signature_def)
  have e: "length ex_truncated_signature < 30 + 8 + unat (Uint32 (drop 4 [0, 0, 0, 2, 0, 0, 0, 5]))"
    by (simp add: eval_simps ex_truncated_signature_def)
  from truncated_signature_fails [OF a b c d e] show ?thesis by simp
qed

subsection \<open>A block size below the size of the section header\<close>




subsection \<open>The length of the signable bytes\<close>




subsection \<open>When the loop over the index entries ends\<close>




subsection \<open>Duplicate file names\<close>

text \<open>
  Claim C7. A buffer whose index names a file twice should make decode fail with the error
  for a duplicate name. The loop that fills the content mapping slices the buffer before it
  looks the name up: on \<open>ex_duplicate_past_end\<close> the second entry of the name \<^verbatim>\<open>a\<close>
  has its content past the end of the buffer and decode panics. On \<open>ex_duplicate\<close>, where
  both ranges lie in the buffer, decode returns the error for the duplicate name.
\<close>

theorem duplicate_name_past_end_panics:
  "fst (Unmarshal ex_duplicate_past_end zero_File) = Some Panic
   \<and> map FileName (Index (snd (Unmarshal ex_duplicate_past_end zero_File))) = [[97], [97]]
   \<and> fst (Unmarshal ex_duplicate zero_File) = Some (Error (DuplicateFile [97]))"
  by (simp add: eval_simps ex_duplicate_past_end_def ex_duplicate_def)

subsection \<open>The magic id\<close>

text \<open>
  Claim C10. Decode does not validate the magic id: replacing the first four bytes of any
  buffer by any four bytes \<open>m\<close> leaves the outcome of decode as it was (success, the same
  error, or a panic), and for a buffer of at least 28 bytes the archive's magic id is
  \<open>m\<close>.
\<close>

theorem magic_id_not_validated:
  assumes "length m = 4"
  shows "fst (Unmarshal (m @ drop 4 input) file) = fst (Unmarshal input file)
         \<and> (28 \<le> length input \<longrightarrow> MarID (snd (Unmarshal (m @ drop 4 input) file)) = m)"
proof (cases "28 \<le> length input")
  case False
  with assms have "length (m @ drop 4 input) < 28" by simp
  with False show ?thesis
    by (simp add: Unmarshal_def del: length_append)
next
  case True
  let ?b = "m @ drop 4 input"
  from True assms have len: "length input = length ?b" by simp
  from assms have tail: "drop 4 input = drop 4 ?b" by simp
  let ?f = "file\<lparr>MarID := take 4 input, OffsetToIndex := Uint32 (take 4 (drop 4 input)),
                   SignaturesHeader := \<lparr>FileSize = Uint64 (take 8 (drop 8 input)),
                                         NumSignatures = Uint32 (take 4 (drop 16 input))\<rparr>\<rparr>"
  from True have u: "Unmarshal input file = Unmarshal_signatures input 20 ?f"
    by (simp add: Unmarshal_def parse_def Let_def drop_take add.commute)
  let ?g = "file\<lparr>MarID := m, OffsetToIndex := Uint32 (take 4 (drop 4 input)),
                   SignaturesHeader := \<lparr>FileSize = Uint64 (take 8 (drop 8 input)),
                                         NumSignatures = Uint32 (take 4 (drop 16 input))\<rparr>\<rparr>"
  have g: "?g = ?f\<lparr>MarID := m\<rparr>"
    by (cases "file") simp
  from True assms have "Unmarshal ?b file = Unmarshal_signatures ?b 20 ?g"
    by (simp add: Unmarshal_def parse_def Let_def drop_take add.commute)
  then have v: "Unmarshal ?b file = Unmarshal_signatures ?b 20 (?f\<lparr>MarID := m\<rparr>)"
    by (simp only: g)
  from signatures_stage_agree [OF len tail, of 20 ?f m]
  have "fst (Unmarshal ?b file) = fst (Unmarshal input file)"
    by (simp only: u v)
  moreover have "MarID (snd (Unmarshal ?b file)) = m"
    by (simp add: v frame_signatures)
  ultimately show ?thesis by simp
qed

theorem magic_id_not_validated_witness:
  "fst (Unmarshal ([88, 88, 88, 88] @ drop 4 ex_signed) zero_File) = None
   \<and> fst (Unmarshal ex_signed zero_File) = None
   \<and> MarID (snd (Unmarshal ([88, 88, 88, 88] @ drop 4 ex_signed) zero_File)) = [88, 88, 88, 88]"
proof -
  have l: "length [88, 88, 88, 88 :: byte] = 4" by simp
  have h: "fst (Unmarshal ex_signed zero_File) = None"
    by (simp add: eval_simps ex_signed_def)
  have n: "28 \<le> length ex_signed"
    by (simp add: ex_signed_def)
  from magic_id_not_validated [OF l, of ex_signed zero_File] h n show ?thesis
    by simp
qed

end
